theory Spec2Isabelle
  imports Main
begin

section \<open>Geometry and input events\<close>

text \<open>
  The window component of \<^verbatim>\<open>src/ftxui/component/window.cpp\<close>: its event handler as a
  function from a state to a result and a state, the element tree its render function
  builds, and the two loops of its drop-shadow decorator.

  The C++ \<^verbatim>\<open>int\<close> values (cell coordinates and sizes) are modelled as \<^typ>\<open>int\<close>: signed
  overflow is undefined in C++, so the model describes the executions in which no
  coordinate leaves the range of \<^verbatim>\<open>int\<close>. Members whose C++ name ends in an underscore
  (\<^verbatim>\<open>box_\<close>, \<^verbatim>\<open>drag_\<close>, ...) lose it, since such names are not identifiers here;
  \<^verbatim>\<open>top\<close> is written \<open>top_y\<close> and the mouse coordinates \<open>mouse_x\<close>, \<open>mouse_y\<close>.
\<close>

record Box =
  x_min :: int
  x_max :: int
  y_min :: int
  y_max :: int

text \<open>
  Modelled from the spec: \<^verbatim>\<open>Box::Contain\<close> is defined outside window.cpp; the spec
  describes Box as a rectangle with inclusive min/max bounds and a containment test.
\<close>

definition Contain :: "Box \<Rightarrow> int \<Rightarrow> int \<Rightarrow> bool" where
  "Contain b px py \<longleftrightarrow> x_min b \<le> px \<and> px \<le> x_max b \<and> y_min b \<le> py \<and> py \<le> y_max b"

datatype Button = Left | Middle | Right | NoButton | WheelUp | WheelDown

datatype Motion = Released | Pressed | Moved

record Mouse =
  button :: Button
  motion :: Motion
  mouse_x :: int
  mouse_y :: int

text \<open>
  An event is a pointer event carrying a \<open>Mouse\<close> (\<^verbatim>\<open>event.is_mouse()\<close>), or
  anything else, such as a key.
\<close>

datatype Event = MouseEvent Mouse | OtherEvent string

text \<open>
  What the surrounding runtime answers during one call of \<^verbatim>\<open>OnEvent\<close>:
  the result of \<^verbatim>\<open>ComponentBase::OnEvent(event)\<close> (the inner component consumed the
  event), and whether each of the two calls of \<^verbatim>\<open>CaptureMouse(event)\<close> (lines 162 and
  173) returns a non-null token.
\<close>

record Env =
  child_OnEvent :: bool
  CaptureMouse_probe :: bool
  CaptureMouse_take :: bool

section \<open>Elements\<close>

text \<open>
  The element combinators window.cpp calls are constructors of a term type: the tree that
  \<^verbatim>\<open>Render\<close> builds is the value the layout and drawing code of the library receives.
  \<open>text_elem\<close> is \<^verbatim>\<open>text\<close> and \<open>size_elem\<close> is \<^verbatim>\<open>size\<close>; of the size
  constraints only \<^verbatim>\<open>EQUAL\<close> occurs. \<open>Content n\<close> is an element built elsewhere, such
  as the one the inner component renders. \<open>reflect\<close> names the member of the window it
  writes.
\<close>

datatype Color = Default | Black | GrayDark | Cyan

datatype Direction = WIDTH | HEIGHT

datatype Constraint = EQUAL

datatype Reflected = To_box | To_box_window

datatype Element =
    emptyElement
  | text_elem string
  | Content nat
  | size_elem Direction Constraint int Element
  | vbox "Element list"
  | hbox "Element list"
  | dim Element
  | center Element
  | window Element Element bool
  | bgcolor Color Element
  | clear_under Element
  | DropShadowDecorator Element
  | reflect Reflected Element

record WindowRenderState =
  state_inner :: Element
  state_title :: string
  state_active :: bool
  state_drag :: bool
  state_resize :: bool

text \<open>
  \<^verbatim>\<open>PositionAndSize\<close>, lines 15 to 31: the decorator it returns, applied to an element.
  The arguments \<open>l\<close>, \<open>t\<close>, \<open>w\<close>, \<open>h\<close> are left, top, width and height.
\<close>

definition PositionAndSize :: "int \<Rightarrow> int \<Rightarrow> int \<Rightarrow> int \<Rightarrow> Element \<Rightarrow> Element" where
  "PositionAndSize l t w h element =
     (let element1 = size_elem WIDTH EQUAL w element;
          element2 = size_elem HEIGHT EQUAL h element1;
          padding_left = size_elem WIDTH EQUAL l emptyElement;
          padding_top = size_elem HEIGHT EQUAL t emptyElement
      in vbox [padding_top, hbox [padding_left, element2]])"

text \<open>\<^verbatim>\<open>DefaultRenderState\<close>, lines 61 to 77.\<close>

definition DefaultRenderState :: "WindowRenderState \<Rightarrow> Element" where
  "DefaultRenderState state =
     (let element = state_inner state;
          titleElement = center (text_elem (state_title state));
          element1 = (if \<not> state_active state then dim element else element);
          titleElement1 = (if \<not> state_active state then dim titleElement else titleElement);
          element2 = window titleElement1 element1 (state_active state);
          element3 = bgcolor Cyan element2;
          element4 = clear_under element3
      in DropShadowDecorator element4)"

text \<open>Whether an element tree holds a drop-shadow decorator.\<close>

fun shadowed :: "Element \<Rightarrow> bool" where
  "shadowed emptyElement = False"
| "shadowed (text_elem s) = False"
| "shadowed (Content n) = False"
| "shadowed (size_elem d c n e) = shadowed e"
| "shadowed (vbox es) = list_ex shadowed es"
| "shadowed (hbox es) = list_ex shadowed es"
| "shadowed (dim e) = shadowed e"
| "shadowed (center e) = shadowed e"
| "shadowed (window t e a) = (shadowed t \<or> shadowed e)"
| "shadowed (bgcolor c e) = shadowed e"
| "shadowed (clear_under e) = shadowed e"
| "shadowed (DropShadowDecorator e) = True"
| "shadowed (reflect r e) = shadowed e"

subsection \<open>The drop shadow\<close>

text \<open>
  The pixels the decorator writes. The pixel buffer is a function from coordinates to
  pixels, \<^verbatim>\<open>screen.PixelAt(x, y)\<close> is its value at \<open>(x, y)\<close>, and an assignment through
  that reference is an update of the function; a cell outside the terminal is a cell no
  one displays.
\<close>

record Pixel =
  character :: string
  foreground_color :: Color
  background_color :: Color
  automerge :: bool

type_synonym Screen = "int \<times> int \<Rightarrow> Pixel"

text \<open>The body of both loops: the three assignments to the pixel at a cell.\<close>

definition paint_shadow :: "int \<times> int \<Rightarrow> Screen \<Rightarrow> Screen" where
  "paint_shadow cell screen =
     screen(cell := (screen cell)\<lparr> foreground_color := GrayDark, background_color := Black,
                                  automerge := False \<rparr>)"

text \<open>Lines 42 to 47, from the row \<open>y\<close> on.\<close>

function right_shadow :: "Box \<Rightarrow> int \<Rightarrow> Screen \<Rightarrow> Screen" where
  "right_shadow b y screen =
     (if y \<le> y_max b then right_shadow b (y + 1) (paint_shadow (x_max b + 1, y + 1) screen)
      else screen)"
  by pat_completeness auto
termination
  by (relation "measure (\<lambda>(b, y, screen). nat (y_max b + 1 - y))") auto

text \<open>Lines 51 to 56, from the column \<open>x\<close> on.\<close>

function bottom_shadow :: "Box \<Rightarrow> int \<Rightarrow> Screen \<Rightarrow> Screen" where
  "bottom_shadow b x screen =
     (if x < x_max b then bottom_shadow b (x + 1) (paint_shadow (x + 1, y_max b + 1) screen)
      else screen)"
  by pat_completeness auto
termination
  by (relation "measure (\<lambda>(b, x, screen). nat (x_max b - x))") auto

text \<open>
  \<^verbatim>\<open>DropShadowDecorator::Render\<close>: \<open>child\<close> is what \<^verbatim>\<open>NodeDecorator::Render\<close> does
  to the screen, \<open>b\<close> the decorator's own \<^verbatim>\<open>box_\<close>.
\<close>

definition DropShadowDecorator_Render :: "(Screen \<Rightarrow> Screen) \<Rightarrow> Box \<Rightarrow> Screen \<Rightarrow> Screen" where
  "DropShadowDecorator_Render child b screen =
     bottom_shadow b (x_min b) (right_shadow b (y_min b) (child screen))"

text \<open>The cells each loop hands to \<^verbatim>\<open>PixelAt\<close>, in order, one entry for each iteration.\<close>

function right_cells :: "Box \<Rightarrow> int \<Rightarrow> (int \<times> int) list" where
  "right_cells b y = (if y \<le> y_max b then (x_max b + 1, y + 1) # right_cells b (y + 1) else [])"
  by pat_completeness auto
termination
  by (relation "measure (\<lambda>(b, y). nat (y_max b + 1 - y))") auto

function bottom_cells :: "Box \<Rightarrow> int \<Rightarrow> (int \<times> int) list" where
  "bottom_cells b x = (if x < x_max b then (x + 1, y_max b + 1) # bottom_cells b (x + 1) else [])"
  by pat_completeness auto
termination
  by (relation "measure (\<lambda>(b, x). nat (x_max b - x))") auto

subsection \<open>Layout\<close>

text \<open>
  Modelled from the spec: the layout of the library (\<^verbatim>\<open>size\<close>, \<^verbatim>\<open>hbox\<close>,
  \<^verbatim>\<open>vbox\<close>, \<^verbatim>\<open>emptyElement\<close>) is not in window.cpp. The spec describes the
  combinators as vertical and horizontal stacking and fixed-size spacers, and the
  Positioner as fixing the size of the content to (width, height) and prepending
  \<open>top\<close> blank rows above and \<open>left\<close> blank columns to the left. So: an element fixed
  to a size requires that size and is cut to it; a stack requires the sum of its children
  along its axis and lays them one after the other, each with the extent it requires;
  \<^verbatim>\<open>emptyElement\<close> requires nothing and draws nothing. Every other element is drawn in
  the rectangle it is given, and the size it requires is the parameter \<open>need\<close>.
\<close>

fun requirement :: "(Element \<Rightarrow> int \<times> int) \<Rightarrow> Element \<Rightarrow> int \<times> int" where
  "requirement need emptyElement = (0, 0)"
| "requirement need (size_elem WIDTH EQUAL n e) = (n, snd (requirement need e))"
| "requirement need (size_elem HEIGHT EQUAL n e) = (fst (requirement need e), n)"
| "requirement need (vbox es) =
     (fold max (map (\<lambda>e. fst (requirement need e)) es) 0,
      sum_list (map (\<lambda>e. snd (requirement need e)) es))"
| "requirement need (hbox es) =
     (sum_list (map (\<lambda>e. fst (requirement need e)) es),
      fold max (map (\<lambda>e. snd (requirement need e)) es) 0)"
| "requirement need e = need e"

text \<open>
  Modelled from the spec: the rectangles in which the elements of a tree are drawn when
  the tree is laid out in the rectangle \<open>b\<close>, in drawing order. This list is the visual
  of the tree. \<open>SetBox_column\<close> and \<open>SetBox_row\<close> place the children of a
  \<^verbatim>\<open>vbox\<close> from the row \<open>y\<close> down and of an \<^verbatim>\<open>hbox\<close> from the column \<open>x\<close> on.
\<close>

fun SetBox :: "(Element \<Rightarrow> int \<times> int) \<Rightarrow> Element \<Rightarrow> Box \<Rightarrow> (Element \<times> Box) list"
  and SetBox_column :: "(Element \<Rightarrow> int \<times> int) \<Rightarrow> Element list \<Rightarrow> Box \<Rightarrow> int \<Rightarrow> (Element \<times> Box) list"
  and SetBox_row :: "(Element \<Rightarrow> int \<times> int) \<Rightarrow> Element list \<Rightarrow> Box \<Rightarrow> int \<Rightarrow> (Element \<times> Box) list"
where
  "SetBox need emptyElement b = []"
| "SetBox need (size_elem WIDTH EQUAL n e) b =
     SetBox need e (b\<lparr> x_max := min (x_min b + n - 1) (x_max b) \<rparr>)"
| "SetBox need (size_elem HEIGHT EQUAL n e) b =
     SetBox need e (b\<lparr> y_max := min (y_min b + n - 1) (y_max b) \<rparr>)"
| "SetBox need (vbox es) b = SetBox_column need es b (y_min b)"
| "SetBox need (hbox es) b = SetBox_row need es b (x_min b)"
| "SetBox need e b = [(e, b)]"
| "SetBox_column need [] b y = []"
| "SetBox_column need (e # es) b y =
     SetBox need e (b\<lparr> y_min := y, y_max := y + snd (requirement need e) - 1 \<rparr>)
     @ SetBox_column need es b (y + snd (requirement need e))"
| "SetBox_row need [] b x = []"
| "SetBox_row need (e # es) b x =
     SetBox need e (b\<lparr> x_min := x, x_max := x + fst (requirement need e) - 1 \<rparr>)
     @ SetBox_row need es b (x + fst (requirement need e))"

section \<open>The window\<close>

text \<open>
  The option fields the window reads and writes (\<^verbatim>\<open>WindowOptions\<close>) followed by the
  private members of \<^verbatim>\<open>WindowImpl\<close>. The inner component is not a field: what it
  does enters through \<open>child_OnEvent\<close> and through the element it renders.
  \<open>captured_mouse\<close> is True when the token is non-null. \<open>TakeFocus_calls\<close> is a ghost
  counter of the calls of \<^verbatim>\<open>TakeFocus()\<close>, whose effect lies in the parent components.
\<close>

record WindowOptions =
  title :: string
  left :: int
  top_y :: int
  width :: int
  height :: int
  resize :: bool
  render :: "(WindowRenderState \<Rightarrow> Element) option"

record WindowImpl = WindowOptions +
  box :: Box
  box_window :: Box
  captured_mouse :: bool
  drag_start_x :: int
  drag_start_y :: int
  resize_start_x :: int
  resize_start_y :: int
  mouse_hover :: bool
  drag :: bool
  resize_bottom_right :: bool
  resize_bottom_right_hover :: bool
  TakeFocus_calls :: nat

text \<open>The constructor: the options are taken as given, the members get their initialisers.\<close>

definition WindowImpl_new :: "WindowOptions \<Rightarrow> WindowImpl" where
  "WindowImpl_new option =
     \<lparr> title = title option, left = left option, top_y = top_y option,
       width = width option, height = height option, resize = resize option,
       render = render option,
       box = \<lparr> x_min = 0, x_max = 0, y_min = 0, y_max = 0 \<rparr>,
       box_window = \<lparr> x_min = 0, x_max = 0, y_min = 0, y_max = 0 \<rparr>,
       captured_mouse = False,
       drag_start_x = 0, drag_start_y = 0, resize_start_x = 0, resize_start_y = 0,
       mouse_hover = False, drag = False, resize_bottom_right = False,
       resize_bottom_right_hover = False, TakeFocus_calls = 0 \<rparr>"

text \<open>
  \<^verbatim>\<open>WindowImpl::Render\<close>, lines 89 to 111. \<open>child\<close> is the element of
  \<^verbatim>\<open>ComponentBase::Render()\<close> and \<open>active\<close> the value of \<^verbatim>\<open>Active()\<close>. The local
  \<^verbatim>\<open>captureable\<close> is computed and never read; the token it may take is a temporary,
  given back at once.
\<close>

definition Render :: "Element \<Rightarrow> bool \<Rightarrow> WindowImpl \<Rightarrow> Element" where
  "Render child active s =
     (let state = \<lparr> state_inner = child, state_title = title s, state_active = active,
                     state_drag = drag s, state_resize = resize_bottom_right s \<rparr>;
          element = (case render s of Some f \<Rightarrow> f state | None \<Rightarrow> DefaultRenderState state);
          element1 = reflect To_box_window element;
          element2 = PositionAndSize (left s) (top_y s) (width s) (height s) element1
      in reflect To_box element2)"

section \<open>The event handler\<close>

text \<open>Lines 122 to 131: the hover flags, recomputed on every pointer event.\<close>

definition update_hover :: "Mouse \<Rightarrow> WindowImpl \<Rightarrow> WindowImpl" where
  "update_hover m s =
     (let s1 = s\<lparr> mouse_hover := Contain (box_window s) (mouse_x m) (mouse_y m) \<rparr>;
          s2 = s1\<lparr> resize_bottom_right_hover := False \<rparr>
      in if mouse_hover s2
         then s2\<lparr> resize_bottom_right_hover :=
                    (mouse_x m = x_max (box_window s2) \<and> mouse_y m = y_max (box_window s2))
                    \<and> resize s2 \<rparr>
         else s2)"

text \<open>Lines 134 to 153: the branch taken while the capture token is held.\<close>

definition captured_branch :: "Mouse \<Rightarrow> WindowImpl \<Rightarrow> bool \<times> WindowImpl" where
  "captured_branch m s =
     (if motion m = Released then (True, s\<lparr> captured_mouse := False \<rparr>)
      else
        let s1 = (if resize_bottom_right s
                  then s\<lparr> width := mouse_x m - resize_start_x s - x_min (box s),
                          height := mouse_y m - resize_start_y s - y_min (box s) \<rparr>
                  else s);
            s2 = (if drag s1
                  then s1\<lparr> left := mouse_x m - drag_start_x s1 - x_min (box s1),
                           top_y := mouse_y m - drag_start_y s1 - y_min (box s1) \<rparr>
                  else s1);
            s3 = s2\<lparr> width := max (width s2) (int (length (title s2)) + 2) \<rparr>;
            s4 = s3\<lparr> height := max (height s3) 2 \<rparr>
        in (True, s4))"

text \<open>Lines 156 to 187: no token is held.\<close>

definition idle_branch :: "Env \<Rightarrow> Mouse \<Rightarrow> WindowImpl \<Rightarrow> bool \<times> WindowImpl" where
  "idle_branch env m s =
     (let s1 = s\<lparr> resize_bottom_right := False \<rparr> in
      if \<not> mouse_hover s1 then (False, s1)
      else if \<not> CaptureMouse_probe env then (True, s1)
      else if button m \<noteq> Left \<or> motion m \<noteq> Pressed then (True, s1)
      else
        let s2 = s1\<lparr> TakeFocus_calls := Suc (TakeFocus_calls s1) \<rparr>;
            s3 = s2\<lparr> captured_mouse := CaptureMouse_take env \<rparr>
        in if \<not> captured_mouse s3 then (True, s3)
           else
             let s4 = s3\<lparr> resize_bottom_right := resize_bottom_right_hover s3 \<rparr>;
                 s5 = s4\<lparr> resize_start_x := mouse_x m - width s4 - x_min (box s4),
                          resize_start_y := mouse_y m - height s4 - y_min (box s4),
                          drag_start_x := mouse_x m - left s4 - x_min (box s4),
                          drag_start_y := mouse_y m - top_y s4 - y_min (box s4) \<rparr>;
                 s6 = s5\<lparr> drag := \<not> resize_bottom_right s5 \<rparr>
             in (True, s6))"

text \<open>\<^verbatim>\<open>WindowImpl::OnEvent\<close>: the handled flag and the state after the call.\<close>

definition OnEvent :: "Env \<Rightarrow> Event \<Rightarrow> WindowImpl \<Rightarrow> bool \<times> WindowImpl" where
  "OnEvent env event s =
     (if child_OnEvent env then (True, s)
      else case event of
        OtherEvent k \<Rightarrow> (False, s)
      | MouseEvent m \<Rightarrow>
          let s1 = update_hover m s
          in if captured_mouse s1 then captured_branch m s1 else idle_branch env m s1)"

subsection \<open>Runs\<close>

text \<open>
  Between two events the runtime draws a frame, and the two \<^verbatim>\<open>reflect\<close> decorators of
  \<^verbatim>\<open>Render\<close> (lines 106 and 108) store the rectangles the layout assigned; the owner of
  the options may also write the option cells. A run is a list of such steps.
\<close>

definition reflect_boxes :: "Box \<Rightarrow> Box \<Rightarrow> WindowImpl \<Rightarrow> WindowImpl" where
  "reflect_boxes bw b s = s\<lparr> box_window := bw, box := b \<rparr>"

definition configure :: "WindowOptions \<Rightarrow> WindowImpl \<Rightarrow> WindowImpl" where
  "configure option s =
     s\<lparr> title := title option, left := left option, top_y := top_y option,
        width := width option, height := height option, resize := resize option,
        render := render option \<rparr>"

datatype Step = Dispatch Env Event | Frame Box Box | Configure WindowOptions

fun step :: "Step \<Rightarrow> WindowImpl \<Rightarrow> WindowImpl" where
  "step (Dispatch env event) s = snd (OnEvent env event s)"
| "step (Frame bw b) s = reflect_boxes bw b s"
| "step (Configure option) s = configure option s"

fun run :: "Step list \<Rightarrow> WindowImpl \<Rightarrow> WindowImpl" where
  "run [] s = s"
| "run (a # as) s = run as (step a s)"

subsection \<open>Gestures\<close>

text \<open>
  The steps that may occur between the press and the release of one gesture: pointer
  events other than a release that reach the window logic, other events, and frames that
  leave the origin \<open>(ox, oy)\<close> of \<open>box\<close> where it was at the press.
\<close>

fun during_gesture :: "int \<Rightarrow> int \<Rightarrow> Step \<Rightarrow> bool" where
  "during_gesture ox oy (Dispatch env (MouseEvent m)) =
     (\<not> child_OnEvent env \<and> motion m \<noteq> Released)"
| "during_gesture ox oy (Dispatch env (OtherEvent k)) = True"
| "during_gesture ox oy (Frame bw b) = (x_min b = ox \<and> y_min b = oy)"
| "during_gesture ox oy (Configure option) = False"

text \<open>The coordinates of the last pointer event of a list of steps, \<open>p\<close> if there is none.\<close>

fun last_pointer :: "int \<times> int \<Rightarrow> Step list \<Rightarrow> int \<times> int" where
  "last_pointer p [] = p"
| "last_pointer p (Dispatch env (MouseEvent m) # as) = last_pointer (mouse_x m, mouse_y m) as"
| "last_pointer p (Dispatch env (OtherEvent k) # as) = last_pointer p as"
| "last_pointer p (Frame bw b # as) = last_pointer p as"
| "last_pointer p (Configure option # as) = last_pointer p as"

text \<open>
  What every admissible step of a gesture preserves: the token, the two flags, the four
  offsets snapshotted at the press, title, resize option and the origin of \<open>box\<close>.
\<close>

definition gesture_frame :: "WindowImpl \<Rightarrow> WindowImpl \<Rightarrow> bool" where
  "gesture_frame s s' \<longleftrightarrow>
     captured_mouse s' \<and> drag s' = drag s \<and> resize_bottom_right s' = resize_bottom_right s
     \<and> drag_start_x s' = drag_start_x s \<and> drag_start_y s' = drag_start_y s
     \<and> resize_start_x s' = resize_start_x s \<and> resize_start_y s' = resize_start_y s
     \<and> title s' = title s \<and> resize s' = resize s
     \<and> x_min (box s') = x_min (box s) \<and> y_min (box s') = y_min (box s)"

section \<open>Concrete windows and events\<close>

definition press :: "int \<Rightarrow> int \<Rightarrow> Mouse" where
  "press px py = \<lparr> button = Left, motion = Pressed, mouse_x = px, mouse_y = py \<rparr>"

definition release :: "int \<Rightarrow> int \<Rightarrow> Mouse" where
  "release px py = \<lparr> button = Left, motion = Released, mouse_x = px, mouse_y = py \<rparr>"

definition move :: "int \<Rightarrow> int \<Rightarrow> Mouse" where
  "move px py = \<lparr> button = NoButton, motion = Moved, mouse_x = px, mouse_y = py \<rparr>"

text \<open>The runtime lets the event through to the window and grants the capture.\<close>

definition granted :: Env where
  "granted = \<lparr> child_OnEvent = False, CaptureMouse_probe = True, CaptureMouse_take = True \<rparr>"

text \<open>Another surface holds the capture: both calls of \<^verbatim>\<open>CaptureMouse\<close> return null.\<close>

definition refused :: Env where
  "refused = \<lparr> child_OnEvent = False, CaptureMouse_probe = False, CaptureMouse_take = False \<rparr>"

text \<open>
  The scenario of the specification: title "Hi", left = 0, top = 0, width = 10,
  height = 5, resize enabled, drawn with its frame on the cells (0,0) to (9,4) of a
  container that starts at the origin.
\<close>

definition hi_options :: WindowOptions where
  "hi_options = \<lparr> title = ''Hi'', left = 0, top_y = 0, width = 10, height = 5, resize = True,
                  render = None \<rparr>"

definition hi_frame :: Step where
  "hi_frame = Frame \<lparr> x_min = 0, x_max = 9, y_min = 0, y_max = 4 \<rparr>
                    \<lparr> x_min = 0, x_max = 79, y_min = 0, y_max = 23 \<rparr>"

definition hi_window :: WindowImpl where
  "hi_window = run [hi_frame] (WindowImpl_new hi_options)"

text \<open>The window after a press on its body at (3, 1), and after the release that follows.\<close>

definition hi_dragging :: WindowImpl where
  "hi_dragging = run [Dispatch granted (MouseEvent (press 3 1))] hi_window"

definition hi_released :: WindowImpl where
  "hi_released = run [Dispatch granted (MouseEvent (release 6 4))] hi_dragging"

text \<open>A window created with a size below the documented minimum.\<close>

definition tiny_options :: WindowOptions where
  "tiny_options = \<lparr> title = ''Hi'', left = 0, top_y = 0, width = 1, height = 1, resize = False,
                    render = None \<rparr>"

text \<open>The small window after a press on its only cell.\<close>

definition tiny_dragging :: WindowImpl where
  "tiny_dragging = run [Dispatch granted (MouseEvent (press 0 0))] (WindowImpl_new tiny_options)"

text \<open>A render override that draws the inner element as it is.\<close>

definition plain_options :: WindowOptions where
  "plain_options = \<lparr> title = ''Hi'', left = 0, top_y = 0, width = 10, height = 5, resize = True,
                     render = Some state_inner \<rparr>"

definition hi_box :: Box where
  "hi_box = \<lparr> x_min = 0, x_max = 9, y_min = 0, y_max = 4 \<rparr>"

text \<open>A screen of 80 columns and 24 rows, and contents that need 10 by 5 cells.\<close>

definition terminal :: Box where
  "terminal = \<lparr> x_min = 0, x_max = 79, y_min = 0, y_max = 23 \<rparr>"

definition need_10_5 :: "Element \<Rightarrow> int \<times> int" where
  "need_10_5 e = (10, 5)"

section \<open>Single events\<close>

text \<open>The hover update writes the two hover flags and nothing else.\<close>

lemma update_hover_frame:
  "title (update_hover m s) = title s" "left (update_hover m s) = left s"
  "top_y (update_hover m s) = top_y s" "width (update_hover m s) = width s"
  "height (update_hover m s) = height s" "resize (update_hover m s) = resize s"
  "box (update_hover m s) = box s" "box_window (update_hover m s) = box_window s"
  "captured_mouse (update_hover m s) = captured_mouse s"
  "drag_start_x (update_hover m s) = drag_start_x s" "drag_start_y (update_hover m s) = drag_start_y s"
  "resize_start_x (update_hover m s) = resize_start_x s" "resize_start_y (update_hover m s) = resize_start_y s"
  "drag (update_hover m s) = drag s" "resize_bottom_right (update_hover m s) = resize_bottom_right s"
  "TakeFocus_calls (update_hover m s) = TakeFocus_calls s"
  "render (update_hover m s) = render s"
  by (simp_all add: update_hover_def Let_def)

lemma update_hover_flags:
  "mouse_hover (update_hover m s) = Contain (box_window s) (mouse_x m) (mouse_y m)"
  "resize_bottom_right_hover (update_hover m s) =
     (Contain (box_window s) (mouse_x m) (mouse_y m) \<and> mouse_x m = x_max (box_window s)
      \<and> mouse_y m = y_max (box_window s) \<and> resize s)"
  by (auto simp add: update_hover_def Let_def)

text \<open>A pointer event that reaches the window logic goes to one of the two branches.\<close>

lemma OnEvent_captured:
  "\<not> child_OnEvent env \<Longrightarrow> captured_mouse s \<Longrightarrow>
   OnEvent env (MouseEvent m) s = captured_branch m (update_hover m s)"
  by (simp add: OnEvent_def Let_def update_hover_frame)

lemma OnEvent_idle:
  "\<not> child_OnEvent env \<Longrightarrow> \<not> captured_mouse s \<Longrightarrow>
   OnEvent env (MouseEvent m) s = idle_branch env m (update_hover m s)"
  by (simp add: OnEvent_def Let_def update_hover_frame)

text \<open>
  The only assignment to left and top in the handler is the one of the drag branch: after
  any call they have their old values or the pointer position minus the offsets.
\<close>

lemma left_top_only_assigned:
  "(left (snd (OnEvent env e s)) = left s \<and> top_y (snd (OnEvent env e s)) = top_y s)
   \<or> (\<exists>m. e = MouseEvent m
         \<and> left (snd (OnEvent env e s)) = mouse_x m - drag_start_x s - x_min (box s)
         \<and> top_y (snd (OnEvent env e s)) = mouse_y m - drag_start_y s - y_min (box s))"
proof (cases e)
  case (OtherEvent k)
  then show ?thesis by (simp add: OnEvent_def)
next
  case (MouseEvent m)
  show ?thesis
  proof (cases "child_OnEvent env")
    case True
    then show ?thesis by (simp add: OnEvent_def)
  next
    case False
    show ?thesis
    proof (cases "captured_mouse s")
      case True
      then show ?thesis using False MouseEvent
        by (simp add: OnEvent_captured captured_branch_def Let_def update_hover_frame)
    next
      case idle: False
      then show ?thesis using False MouseEvent
        by (simp add: OnEvent_idle idle_branch_def Let_def update_hover_frame)
    qed
  qed
qed

section \<open>Whole gestures\<close>

lemma run_append: "run (as @ bs) s = run bs (run as s)"
  by (induction as arbitrary: s) simp_all

lemma gesture_frame_refl: "captured_mouse s \<Longrightarrow> gesture_frame s s"
  by (simp add: gesture_frame_def)

lemma gesture_frame_trans: "gesture_frame s t \<Longrightarrow> gesture_frame t u \<Longrightarrow> gesture_frame s u"
  by (simp add: gesture_frame_def)

lemma step_gesture_frame:
  assumes "during_gesture (x_min (box s)) (y_min (box s)) a" and "captured_mouse s"
  shows "gesture_frame s (step a s)"
proof (cases a)
  case (Dispatch env e)
  show ?thesis
  proof (cases e)
    case (MouseEvent m)
    then show ?thesis using assms Dispatch
      by (simp add: gesture_frame_def OnEvent_captured captured_branch_def Let_def update_hover_frame)
  next
    case (OtherEvent k)
    then show ?thesis using assms Dispatch by (simp add: gesture_frame_def OnEvent_def)
  qed
next
  case (Frame bw b)
  then show ?thesis using assms by (simp add: gesture_frame_def reflect_boxes_def)
next
  case (Configure option)
  then show ?thesis using assms by simp
qed

lemma run_gesture_frame:
  "list_all (during_gesture (x_min (box s)) (y_min (box s))) acts \<Longrightarrow> captured_mouse s
   \<Longrightarrow> gesture_frame s (run acts s)"
proof (induction acts arbitrary: s)
  case Nil
  then show ?case by (simp add: gesture_frame_refl)
next
  case (Cons a acts)
  have first: "gesture_frame s (step a s)"
    using Cons.prems by (simp add: step_gesture_frame)
  then have "list_all (during_gesture (x_min (box (step a s))) (y_min (box (step a s)))) acts"
    and "captured_mouse (step a s)"
    using Cons.prems by (simp_all add: gesture_frame_def)
  then have "gesture_frame (step a s) (run acts (step a s))" by (rule Cons.IH)
  with first show ?case by (simp add: gesture_frame_trans[of s "step a s"])
qed

lemma last_pointer_Cons: "last_pointer p (a # as) = last_pointer (last_pointer p [a]) as"
proof (cases a)
  case (Dispatch env e)
  then show ?thesis by (cases e) simp_all
qed simp_all

text \<open>While dragging, left/top follow the last pointer event.\<close>

lemma step_drag_position:
  assumes "during_gesture (x_min (box s)) (y_min (box s)) a" and "captured_mouse s" and "drag s"
    and "left s = fst p - drag_start_x s - x_min (box s)"
    and "top_y s = snd p - drag_start_y s - y_min (box s)"
  shows "left (step a s) = fst (last_pointer p [a]) - drag_start_x s - x_min (box s)
       \<and> top_y (step a s) = snd (last_pointer p [a]) - drag_start_y s - y_min (box s)"
proof (cases a)
  case (Dispatch env e)
  show ?thesis
  proof (cases e)
    case (MouseEvent m)
    then show ?thesis using assms Dispatch
      by (simp add: OnEvent_captured captured_branch_def Let_def update_hover_frame)
  next
    case (OtherEvent k)
    then show ?thesis using assms Dispatch by (simp add: OnEvent_def)
  qed
next
  case (Frame bw b)
  then show ?thesis using assms by (simp add: reflect_boxes_def)
next
  case (Configure option)
  then show ?thesis using assms by simp
qed

lemma run_drag_position:
  "list_all (during_gesture (x_min (box s)) (y_min (box s))) acts \<Longrightarrow> captured_mouse s \<Longrightarrow> drag s
   \<Longrightarrow> left s = fst p - drag_start_x s - x_min (box s)
   \<Longrightarrow> top_y s = snd p - drag_start_y s - y_min (box s)
   \<Longrightarrow> left (run acts s) = fst (last_pointer p acts) - drag_start_x s - x_min (box s)
     \<and> top_y (run acts s) = snd (last_pointer p acts) - drag_start_y s - y_min (box s)"
proof (induction acts arbitrary: s p)
  case Nil
  then show ?case by simp
next
  case (Cons a acts)
  let ?t = "step a s" and ?q = "last_pointer p [a]"
  have a: "during_gesture (x_min (box s)) (y_min (box s)) a"
    and rest: "list_all (during_gesture (x_min (box s)) (y_min (box s))) acts"
    using Cons.prems(1) by simp_all
  have fr: "gesture_frame s ?t" using a Cons.prems(2) by (rule step_gesture_frame)
  have pos: "left ?t = fst ?q - drag_start_x s - x_min (box s)
           \<and> top_y ?t = snd ?q - drag_start_y s - y_min (box s)"
    using a Cons.prems(2-5) by (rule step_drag_position)
  have "left (run acts ?t) = fst (last_pointer ?q acts) - drag_start_x ?t - x_min (box ?t)
      \<and> top_y (run acts ?t) = snd (last_pointer ?q acts) - drag_start_y ?t - y_min (box ?t)"
  proof (rule Cons.IH)
    show "list_all (during_gesture (x_min (box ?t)) (y_min (box ?t))) acts"
      using rest fr by (simp add: gesture_frame_def)
    show "captured_mouse ?t" using fr by (simp add: gesture_frame_def)
    show "drag ?t" using fr Cons.prems(3) by (simp add: gesture_frame_def)
    show "left ?t = fst ?q - drag_start_x ?t - x_min (box ?t)"
      using pos fr by (simp add: gesture_frame_def)
    show "top_y ?t = snd ?q - drag_start_y ?t - y_min (box ?t)"
      using pos fr by (simp add: gesture_frame_def)
  qed
  moreover have "last_pointer p (a # acts) = last_pointer ?q acts" by (rule last_pointer_Cons)
  ultimately show ?case using fr by (simp add: gesture_frame_def)
qed

lemma run_still_position:
  "list_all (during_gesture (x_min (box s)) (y_min (box s))) acts \<Longrightarrow> captured_mouse s
   \<Longrightarrow> \<not> drag s \<Longrightarrow> left (run acts s) = left s \<and> top_y (run acts s) = top_y s"
proof (induction acts arbitrary: s)
  case Nil
  then show ?case by simp
next
  case (Cons a acts)
  let ?t = "step a s"
  have a: "during_gesture (x_min (box s)) (y_min (box s)) a"
    and rest: "list_all (during_gesture (x_min (box s)) (y_min (box s))) acts"
    using Cons.prems(1) by simp_all
  have fr: "gesture_frame s ?t" using a Cons.prems(2) by (rule step_gesture_frame)
  have here: "left ?t = left s \<and> top_y ?t = top_y s"
  proof (cases a)
    case (Dispatch env e)
    have "captured_mouse s" by (rule Cons.prems(2))
    then have "\<not> drag s \<longrightarrow> left (snd (OnEvent env (MouseEvent m) s)) = left s
                      \<and> top_y (snd (OnEvent env (MouseEvent m) s)) = top_y s" for m
      by (cases "child_OnEvent env")
         (simp_all add: OnEvent_def Let_def captured_branch_def update_hover_frame)
    then show ?thesis using Dispatch Cons.prems(3) by (cases e) (simp_all add: OnEvent_def)
  next
    case (Frame bw b)
    then show ?thesis by (simp add: reflect_boxes_def)
  next
    case (Configure option)
    then show ?thesis using a by simp
  qed
  have "left (run acts ?t) = left ?t \<and> top_y (run acts ?t) = top_y ?t"
  proof (rule Cons.IH)
    show "list_all (during_gesture (x_min (box ?t)) (y_min (box ?t))) acts"
      using rest fr by (simp add: gesture_frame_def)
    show "captured_mouse ?t" using fr by (simp add: gesture_frame_def)
    show "\<not> drag ?t" using fr Cons.prems(3) by (simp add: gesture_frame_def)
  qed
  with here show ?case by simp
qed

lemma press_starts_gesture:
  assumes "\<not> captured_mouse s" and "Contain (box_window s) px py"
    and "\<not> child_OnEvent env" and "CaptureMouse_probe env" and "CaptureMouse_take env"
  shows "snd (OnEvent env (MouseEvent (press px py)) s) =
     (update_hover (press px py) s)
       \<lparr> captured_mouse := True,
         drag_start_x := px - left s - x_min (box s),
         drag_start_y := py - top_y s - y_min (box s),
         resize_start_x := px - width s - x_min (box s),
         resize_start_y := py - height s - y_min (box s),
         drag := \<not> (px = x_max (box_window s) \<and> py = y_max (box_window s) \<and> resize s),
         resize_bottom_right := (px = x_max (box_window s) \<and> py = y_max (box_window s) \<and> resize s),
         TakeFocus_calls := Suc (TakeFocus_calls s) \<rparr>"
  using assms
  by (simp add: OnEvent_idle idle_branch_def Let_def update_hover_frame update_hover_flags press_def)

text \<open>One step keeps "token held implies exactly one flag".\<close>

lemma step_capture_flags:
  assumes "captured_mouse s \<longrightarrow> drag s \<noteq> resize_bottom_right s"
  shows "captured_mouse (step a s) \<longrightarrow> drag (step a s) \<noteq> resize_bottom_right (step a s)"
proof (cases a)
  case (Dispatch env e)
  show ?thesis
  proof (cases e)
    case (OtherEvent k)
    then show ?thesis using assms Dispatch by (simp add: OnEvent_def)
  next
    case (MouseEvent m)
    show ?thesis
    proof (cases "child_OnEvent env")
      case True
      then show ?thesis using assms Dispatch MouseEvent by (simp add: OnEvent_def)
    next
      case False
      show ?thesis
      proof (cases "captured_mouse s")
        case True
        then show ?thesis using assms Dispatch MouseEvent False
          by (simp add: OnEvent_captured captured_branch_def Let_def update_hover_frame)
      next
        case idle: False
        then show ?thesis using Dispatch MouseEvent False
          by (simp add: OnEvent_idle idle_branch_def Let_def update_hover_frame)
      qed
    qed
  qed
next
  case (Frame bw b)
  then show ?thesis using assms by (simp add: reflect_boxes_def)
next
  case (Configure option)
  then show ?thesis using assms by (simp add: configure_def)
qed

lemma run_capture_flags:
  "captured_mouse s \<longrightarrow> drag s \<noteq> resize_bottom_right s \<Longrightarrow>
   captured_mouse (run acts s) \<longrightarrow> drag (run acts s) \<noteq> resize_bottom_right (run acts s)"
proof (induction acts arbitrary: s)
  case Nil
  then show ?case by simp
next
  case (Cons a acts)
  have "captured_mouse (step a s) \<longrightarrow> drag (step a s) \<noteq> resize_bottom_right (step a s)"
    using Cons.prems by (rule step_capture_flags)
  then have "captured_mouse (run acts (step a s)) \<longrightarrow>
             drag (run acts (step a s)) \<noteq> resize_bottom_right (run acts (step a s))"
    by (rule Cons.IH)
  then show ?case by simp
qed

section \<open>The shadow sweeps\<close>

declare right_shadow.simps [simp del] bottom_shadow.simps [simp del]
  right_cells.simps [simp del] bottom_cells.simps [simp del]

lemma right_shadow_fold:
  "right_shadow b y screen = fold paint_shadow (right_cells b y) screen"
proof (induction b y screen rule: right_shadow.induct)
  case (1 b y screen)
  show ?case
  proof (cases "y \<le> y_max b")
    case True
    then show ?thesis using 1 by (simp add: right_shadow.simps[of b y] right_cells.simps[of b y])
  next
    case False
    then show ?thesis by (simp add: right_shadow.simps[of b y] right_cells.simps[of b y])
  qed
qed

lemma bottom_shadow_fold:
  "bottom_shadow b x screen = fold paint_shadow (bottom_cells b x) screen"
proof (induction b x screen rule: bottom_shadow.induct)
  case (1 b x screen)
  show ?case
  proof (cases "x < x_max b")
    case True
    then show ?thesis using 1 by (simp add: bottom_shadow.simps[of b x] bottom_cells.simps[of b x])
  next
    case False
    then show ?thesis by (simp add: bottom_shadow.simps[of b x] bottom_cells.simps[of b x])
  qed
qed

lemma right_cells_eq: "right_cells b y = map (\<lambda>r. (x_max b + 1, r + 1)) [y..y_max b]"
proof (induction b y rule: right_cells.induct)
  case (1 b y)
  show ?case
  proof (cases "y \<le> y_max b")
    case True
    then show ?thesis using 1 by (simp add: right_cells.simps[of b y] upto_rec1[of y])
  next
    case False
    then show ?thesis by (simp add: right_cells.simps[of b y])
  qed
qed

lemma bottom_cells_eq: "bottom_cells b x = map (\<lambda>c. (c + 1, y_max b + 1)) [x..x_max b - 1]"
proof (induction b x rule: bottom_cells.induct)
  case (1 b x)
  show ?case
  proof (cases "x < x_max b")
    case True
    then show ?thesis using 1 by (simp add: bottom_cells.simps[of b x] upto_rec1[of x])
  next
    case False
    then show ?thesis by (simp add: bottom_cells.simps[of b x])
  qed
qed

lemma set_right_cells:
  "set (right_cells b y) = {(c, r). c = x_max b + 1 \<and> y + 1 \<le> r \<and> r \<le> y_max b + 1}"
proof -
  have "(c, r) \<in> set (right_cells b y) \<longleftrightarrow> c = x_max b + 1 \<and> y + 1 \<le> r \<and> r \<le> y_max b + 1" for c r
  proof
    assume "(c, r) \<in> set (right_cells b y)"
    then obtain k where "y \<le> k" "k \<le> y_max b" "c = x_max b + 1" "r = k + 1"
      by (auto simp add: right_cells_eq)
    then show "c = x_max b + 1 \<and> y + 1 \<le> r \<and> r \<le> y_max b + 1" by simp
  next
    assume a: "c = x_max b + 1 \<and> y + 1 \<le> r \<and> r \<le> y_max b + 1"
    then have "r - 1 \<in> set [y..y_max b]" by simp
    then have "(x_max b + 1, (r - 1) + 1) \<in> (\<lambda>r. (x_max b + 1, r + 1)) ` set [y..y_max b]"
      by (rule imageI)
    then show "(c, r) \<in> set (right_cells b y)" using a by (simp add: right_cells_eq)
  qed
  then show ?thesis by auto
qed

lemma set_bottom_cells:
  "set (bottom_cells b x) = {(c, r). r = y_max b + 1 \<and> x + 1 \<le> c \<and> c \<le> x_max b}"
proof -
  have "(c, r) \<in> set (bottom_cells b x) \<longleftrightarrow> r = y_max b + 1 \<and> x + 1 \<le> c \<and> c \<le> x_max b" for c r
  proof
    assume "(c, r) \<in> set (bottom_cells b x)"
    then obtain k where "x \<le> k" "k \<le> x_max b - 1" "r = y_max b + 1" "c = k + 1"
      by (auto simp add: bottom_cells_eq)
    then show "r = y_max b + 1 \<and> x + 1 \<le> c \<and> c \<le> x_max b" by simp
  next
    assume a: "r = y_max b + 1 \<and> x + 1 \<le> c \<and> c \<le> x_max b"
    then have "c - 1 \<in> set [x..x_max b - 1]" by simp
    then have "((c - 1) + 1, y_max b + 1) \<in> (\<lambda>c. (c + 1, y_max b + 1)) ` set [x..x_max b - 1]"
      by (rule imageI)
    then show "(c, r) \<in> set (bottom_cells b x)" using a by (simp add: bottom_cells_eq)
  qed
  then show ?thesis by auto
qed

lemma distinct_right_cells: "distinct (right_cells b y)"
  by (simp add: right_cells_eq distinct_map inj_on_def)

lemma distinct_bottom_cells: "distinct (bottom_cells b x)"
  by (simp add: bottom_cells_eq distinct_map inj_on_def)

lemma count_list_distinct: "distinct xs \<Longrightarrow> count_list xs a = (if a \<in> set xs then 1 else 0)"
  by (induction xs) auto

lemma fold_paint_shadow:
  "fold paint_shadow cells screen c =
     (if c \<in> set cells
      then (screen c)\<lparr> foreground_color := GrayDark, background_color := Black, automerge := False \<rparr>
      else screen c)"
proof (induction cells arbitrary: screen)
  case Nil
  then show ?case by simp
next
  case (Cons a cells)
  then show ?case by (simp add: paint_shadow_def)
qed

lemma Render_default_shadowed: "render s = None \<Longrightarrow> shadowed (Render child active s)"
  by (simp add: Render_def PositionAndSize_def DefaultRenderState_def Let_def)

section \<open>The positioner\<close>

lemma Box_all_updated:
  "(b :: Box)\<lparr> y_min := c, x_min := a, y_max := d, x_max := a' \<rparr>
     = \<lparr> x_min = a, x_max = a', y_min = c, y_max = d \<rparr>"
  by simp

lemma SetBox_PositionAndSize:
  "SetBox need (PositionAndSize l t w h e) b =
     SetBox need e \<lparr> x_min = x_min b + l, x_max = x_min b + l + w - 1,
                    y_min = y_min b + t, y_max = y_min b + t + h - 1 \<rparr>"
  by (simp add: PositionAndSize_def Let_def Box_all_updated)

section \<open>The concrete runs\<close>

lemmas handler_defs = OnEvent_def update_hover_def captured_branch_def idle_branch_def
  Contain_def Let_def reflect_boxes_def configure_def WindowImpl_new_def

lemmas example_defs = hi_window_def hi_frame_def hi_options_def hi_dragging_def hi_released_def
  tiny_options_def tiny_dragging_def press_def release_def move_def granted_def refused_def

lemma hi_window_eq:
  "hi_window = \<lparr> title = ''Hi'', left = 0, top_y = 0, width = 10, height = 5, resize = True, render = None,
       box = \<lparr> x_min = 0, x_max = 79, y_min = 0, y_max = 23 \<rparr>,
       box_window = \<lparr> x_min = 0, x_max = 9, y_min = 0, y_max = 4 \<rparr>,
       captured_mouse = False,
       drag_start_x = 0, drag_start_y = 0, resize_start_x = 0, resize_start_y = 0,
       mouse_hover = False, drag = False, resize_bottom_right = False,
       resize_bottom_right_hover = False, TakeFocus_calls = 0 \<rparr>"
  by (simp add: handler_defs example_defs)

lemma hi_dragging_eq:
  "hi_dragging = \<lparr> title = ''Hi'', left = 0, top_y = 0, width = 10, height = 5, resize = True, render = None,
       box = \<lparr> x_min = 0, x_max = 79, y_min = 0, y_max = 23 \<rparr>,
       box_window = \<lparr> x_min = 0, x_max = 9, y_min = 0, y_max = 4 \<rparr>,
       captured_mouse = True,
       drag_start_x = 3, drag_start_y = 1, resize_start_x = -7, resize_start_y = -4,
       mouse_hover = True, drag = True, resize_bottom_right = False,
       resize_bottom_right_hover = False, TakeFocus_calls = 1 \<rparr>"
  by (simp add: hi_dragging_def hi_window_eq handler_defs press_def granted_def)

lemma hi_released_eq:
  "hi_released = \<lparr> title = ''Hi'', left = 0, top_y = 0, width = 10, height = 5, resize = True, render = None,
       box = \<lparr> x_min = 0, x_max = 79, y_min = 0, y_max = 23 \<rparr>,
       box_window = \<lparr> x_min = 0, x_max = 9, y_min = 0, y_max = 4 \<rparr>,
       captured_mouse = False,
       drag_start_x = 3, drag_start_y = 1, resize_start_x = -7, resize_start_y = -4,
       mouse_hover = True, drag = True, resize_bottom_right = False,
       resize_bottom_right_hover = False, TakeFocus_calls = 1 \<rparr>"
  by (simp add: hi_released_def hi_dragging_eq handler_defs release_def granted_def)

lemma tiny_dragging_eq:
  "tiny_dragging = \<lparr> title = ''Hi'', left = 0, top_y = 0, width = 1, height = 1, resize = False, render = None,
       box = \<lparr> x_min = 0, x_max = 0, y_min = 0, y_max = 0 \<rparr>,
       box_window = \<lparr> x_min = 0, x_max = 0, y_min = 0, y_max = 0 \<rparr>,
       captured_mouse = True,
       drag_start_x = 0, drag_start_y = 0, resize_start_x = -1, resize_start_y = -1,
       mouse_hover = True, drag = True, resize_bottom_right = False,
       resize_bottom_right_hover = False, TakeFocus_calls = 1 \<rparr>"
  by (simp add: tiny_dragging_def tiny_options_def handler_defs press_def granted_def)

section \<open>Dragging\<close>

text \<open>
  Claim C1, as amended. Take a left-button press inside the window that is not on the
  bottom-right handle with resize enabled, granted the capture; then any number of
  pointer events other than releases, other events and frames that keep the origin of
  \<open>box\<close>; then a release. Afterwards (left, top) is the initial (left, top) plus the
  displacement from the press to the last pointer event before the release (the press
  itself when there is none), and the token is released. The coordinates of the release
  are not used.
\<close>

theorem drag_gesture_follows_last_motion:
  assumes idle: "\<not> captured_mouse s"
    and inside: "Contain (box_window s) px py"
    and body: "\<not> (px = x_max (box_window s) \<and> py = y_max (box_window s) \<and> resize s)"
    and env: "\<not> child_OnEvent env" "CaptureMouse_probe env" "CaptureMouse_take env"
    and mid: "list_all (during_gesture (x_min (box s)) (y_min (box s))) acts"
    and rel: "\<not> child_OnEvent renv" "motion r = Released"
  shows "left (run (Dispatch env (MouseEvent (press px py)) # acts
                      @ [Dispatch renv (MouseEvent r)]) s)
           = left s + (fst (last_pointer (px, py) acts) - px)
       \<and> top_y (run (Dispatch env (MouseEvent (press px py)) # acts
                      @ [Dispatch renv (MouseEvent r)]) s)
           = top_y s + (snd (last_pointer (px, py) acts) - py)
       \<and> \<not> captured_mouse (run (Dispatch env (MouseEvent (press px py)) # acts
                      @ [Dispatch renv (MouseEvent r)]) s)"
proof -
  let ?s1 = "snd (OnEvent env (MouseEvent (press px py)) s)"
  let ?s2 = "run acts ?s1"
  have s1: "captured_mouse ?s1" "drag ?s1" "box ?s1 = box s"
    "drag_start_x ?s1 = px - left s - x_min (box s)"
    "drag_start_y ?s1 = py - top_y s - y_min (box s)"
    "left ?s1 = left s" "top_y ?s1 = top_y s"
    unfolding press_starts_gesture[OF idle inside env]
    using body by (simp_all add: update_hover_frame)
  have mid1: "list_all (during_gesture (x_min (box ?s1)) (y_min (box ?s1))) acts"
    using mid s1(3) by simp
  have fr: "gesture_frame ?s1 ?s2" using mid1 s1(1) by (rule run_gesture_frame)
  have "left ?s2 = fst (last_pointer (px, py) acts) - drag_start_x ?s1 - x_min (box ?s1)
      \<and> top_y ?s2 = snd (last_pointer (px, py) acts) - drag_start_y ?s1 - y_min (box ?s1)"
    using mid1 s1(1,2) by (rule run_drag_position) (simp_all add: s1)
  then have pos: "left ?s2 = left s + (fst (last_pointer (px, py) acts) - px)"
    "top_y ?s2 = top_y s + (snd (last_pointer (px, py) acts) - py)"
    by (simp_all add: s1)
  have cap: "captured_mouse ?s2" using fr by (simp add: gesture_frame_def)
  have fin: "snd (OnEvent renv (MouseEvent r) ?s2) = (update_hover r ?s2)\<lparr> captured_mouse := False \<rparr>"
    using cap rel by (simp add: OnEvent_captured captured_branch_def)
  have "run (Dispatch env (MouseEvent (press px py)) # acts @ [Dispatch renv (MouseEvent r)]) s
        = snd (OnEvent renv (MouseEvent r) ?s2)"
    by (simp add: run_append)
  then show ?thesis using pos by (simp add: fin update_hover_frame)
qed

text \<open>
  Claim C1 as stated fails: a press at (3, 1) and a release at (6, 4) with no motion event
  between them leave the window at (0, 0), not at (3, 3).
\<close>

theorem drag_release_position_counterexample:
  "\<not> captured_mouse hi_window \<and> Contain (box_window hi_window) 3 1
   \<and> \<not> (3 = x_max (box_window hi_window) \<and> 1 = y_max (box_window hi_window))
   \<and> left (run [Dispatch granted (MouseEvent (press 3 1)),
                 Dispatch granted (MouseEvent (release 6 4))] hi_window) = 0
   \<and> left hi_window + (6 - 3) = 3
   \<and> top_y (run [Dispatch granted (MouseEvent (press 3 1)),
                 Dispatch granted (MouseEvent (release 6 4))] hi_window) = 0
   \<and> top_y hi_window + (4 - 1) = 3"
  by (simp add: hi_window_eq handler_defs press_def release_def granted_def)

text \<open>Claim C1 as amended, on a gesture with two motions, a frame and a key.\<close>

theorem drag_gesture_follows_last_motion_witness:
  "\<not> captured_mouse hi_window \<and> Contain (box_window hi_window) 3 1
   \<and> \<not> (3 = x_max (box_window hi_window) \<and> 1 = y_max (box_window hi_window) \<and> resize hi_window)
   \<and> list_all (during_gesture (x_min (box hi_window)) (y_min (box hi_window)))
        [Dispatch granted (MouseEvent (move 5 2)),
         Frame \<lparr> x_min = 2, x_max = 11, y_min = 1, y_max = 5 \<rparr>
               \<lparr> x_min = 0, x_max = 79, y_min = 0, y_max = 23 \<rparr>,
         Dispatch refused (OtherEvent ''a''),
         Dispatch granted (MouseEvent (move 8 6))]
   \<and> left (run (Dispatch granted (MouseEvent (press 3 1)) #
         [Dispatch granted (MouseEvent (move 5 2)),
          Frame \<lparr> x_min = 2, x_max = 11, y_min = 1, y_max = 5 \<rparr>
                \<lparr> x_min = 0, x_max = 79, y_min = 0, y_max = 23 \<rparr>,
          Dispatch refused (OtherEvent ''a''),
          Dispatch granted (MouseEvent (move 8 6))]
         @ [Dispatch granted (MouseEvent (release 9 9))]) hi_window) = 5
   \<and> top_y (run (Dispatch granted (MouseEvent (press 3 1)) #
         [Dispatch granted (MouseEvent (move 5 2)),
          Frame \<lparr> x_min = 2, x_max = 11, y_min = 1, y_max = 5 \<rparr>
                \<lparr> x_min = 0, x_max = 79, y_min = 0, y_max = 23 \<rparr>,
          Dispatch refused (OtherEvent ''a''),
          Dispatch granted (MouseEvent (move 8 6))]
         @ [Dispatch granted (MouseEvent (release 9 9))]) hi_window) = 5"
proof -
  let ?acts = "[Dispatch granted (MouseEvent (move 5 2)),
         Frame \<lparr> x_min = 2, x_max = 11, y_min = 1, y_max = 5 \<rparr>
               \<lparr> x_min = 0, x_max = 79, y_min = 0, y_max = 23 \<rparr>,
         Dispatch refused (OtherEvent ''a''),
         Dispatch granted (MouseEvent (move 8 6))]"
  have h1: "\<not> captured_mouse hi_window" by (simp add: hi_window_eq)
  have h2: "Contain (box_window hi_window) 3 1" by (simp add: hi_window_eq Contain_def)
  have h3: "\<not> (3 = x_max (box_window hi_window) \<and> 1 = y_max (box_window hi_window) \<and> resize hi_window)"
    by (simp add: hi_window_eq)
  have h4: "\<not> child_OnEvent granted" "CaptureMouse_probe granted" "CaptureMouse_take granted"
    by (simp_all add: granted_def)
  have h5: "list_all (during_gesture (x_min (box hi_window)) (y_min (box hi_window))) ?acts"
    by (simp add: hi_window_eq granted_def move_def)
  have h6: "motion (release 9 9) = Released" by (simp add: release_def)
  from drag_gesture_follows_last_motion[OF h1 h2 h3 h4 h5 h4(1) h6] h1 h2 h3 h5
  show ?thesis by (simp add: hi_window_eq move_def)
qed

text \<open>
  Claim C10. On every pointer event other than a release that arrives while the token is
  held and the dragging flag is set, left and top are assigned the pointer position minus
  the snapshotted offset minus the origin of \<open>box\<close>, with no clamp: every pair of
  integers, however negative, is reached by some motion event. In the same branch width
  and height are raised to their minimums (title length + 2, and 2), also when the gesture
  is a pure drag. And no other path of the handler writes left or top: after any call
  they have their old values or the values of that assignment.
\<close>

theorem drag_motion_never_clamped:
  assumes "captured_mouse s" and "drag s" and "\<not> child_OnEvent env" and "motion m \<noteq> Released"
  shows "fst (OnEvent env (MouseEvent m) s) = True
       \<and> left (snd (OnEvent env (MouseEvent m) s)) = mouse_x m - drag_start_x s - x_min (box s)
       \<and> top_y (snd (OnEvent env (MouseEvent m) s)) = mouse_y m - drag_start_y s - y_min (box s)
       \<and> (\<not> resize_bottom_right s \<longrightarrow>
            width (snd (OnEvent env (MouseEvent m) s)) = max (width s) (int (length (title s)) + 2)
          \<and> height (snd (OnEvent env (MouseEvent m) s)) = max (height s) 2)
       \<and> (\<forall>l t. \<exists>m'. motion m' = Moved
            \<and> left (snd (OnEvent env (MouseEvent m') s)) = l
            \<and> top_y (snd (OnEvent env (MouseEvent m') s)) = t)
       \<and> (\<forall>env' e' s'.
             (left (snd (OnEvent env' e' s')) = left s' \<and> top_y (snd (OnEvent env' e' s')) = top_y s')
           \<or> (\<exists>m'. e' = MouseEvent m'
               \<and> left (snd (OnEvent env' e' s')) = mouse_x m' - drag_start_x s' - x_min (box s')
               \<and> top_y (snd (OnEvent env' e' s')) = mouse_y m' - drag_start_y s' - y_min (box s')))"
proof -
  have step: "OnEvent env (MouseEvent n) s = captured_branch n (update_hover n s)" for n
    using assms by (simp add: OnEvent_captured)
  have a: "fst (OnEvent env (MouseEvent m) s) = True"
    using assms by (simp add: step captured_branch_def Let_def)
  have b: "left (snd (OnEvent env (MouseEvent n) s)) = mouse_x n - drag_start_x s - x_min (box s)
         \<and> top_y (snd (OnEvent env (MouseEvent n) s)) = mouse_y n - drag_start_y s - y_min (box s)"
    if "motion n \<noteq> Released" for n
    using assms that by (simp add: step captured_branch_def Let_def update_hover_frame)
  have c: "width (snd (OnEvent env (MouseEvent m) s)) = max (width s) (int (length (title s)) + 2)
          \<and> height (snd (OnEvent env (MouseEvent m) s)) = max (height s) 2"
    if "\<not> resize_bottom_right s"
    using assms that by (simp add: step captured_branch_def Let_def update_hover_frame)
  have d: "\<exists>m'. motion m' = Moved
            \<and> left (snd (OnEvent env (MouseEvent m') s)) = l
            \<and> top_y (snd (OnEvent env (MouseEvent m') s)) = t" for l t
  proof -
    let ?n = "move (l + drag_start_x s + x_min (box s)) (t + drag_start_y s + y_min (box s))"
    have "motion ?n = Moved" by (simp add: move_def)
    moreover have "motion ?n \<noteq> Released" by (simp add: move_def)
    from b[OF this] have "left (snd (OnEvent env (MouseEvent ?n) s)) = l
      \<and> top_y (snd (OnEvent env (MouseEvent ?n) s)) = t" by (simp add: move_def)
    ultimately show ?thesis by blast
  qed
  have e: "\<forall>env' e' s'.
             (left (snd (OnEvent env' e' s')) = left s' \<and> top_y (snd (OnEvent env' e' s')) = top_y s')
           \<or> (\<exists>m'. e' = MouseEvent m'
               \<and> left (snd (OnEvent env' e' s')) = mouse_x m' - drag_start_x s' - x_min (box s')
               \<and> top_y (snd (OnEvent env' e' s')) = mouse_y m' - drag_start_y s' - y_min (box s'))"
    by (intro allI left_top_only_assigned)
  from a b[OF assms(4)] c d e show ?thesis by blast
qed

text \<open>Claim C10 at the dragged window: the pointer goes to (-50, -20).\<close>

theorem drag_motion_never_clamped_witness:
  "captured_mouse hi_dragging \<and> drag hi_dragging \<and> \<not> child_OnEvent granted
   \<and> motion (move (-50) (-20)) \<noteq> Released
   \<and> left (snd (OnEvent granted (MouseEvent (move (-50) (-20))) hi_dragging)) = -53
   \<and> top_y (snd (OnEvent granted (MouseEvent (move (-50) (-20))) hi_dragging)) = -21
   \<and> width (snd (OnEvent granted (MouseEvent (move (-50) (-20))) hi_dragging)) = 10
   \<and> height (snd (OnEvent granted (MouseEvent (move (-50) (-20))) hi_dragging)) = 5"
proof -
  have h: "captured_mouse hi_dragging" "drag hi_dragging" "\<not> child_OnEvent granted"
    "motion (move (-50) (-20)) \<noteq> Released"
    by (simp_all add: hi_dragging_eq granted_def move_def)
  have r: "\<not> resize_bottom_right hi_dragging" by (simp add: hi_dragging_eq)
  from drag_motion_never_clamped[OF h] r h show ?thesis
    by (simp add: hi_dragging_eq move_def)
qed

section \<open>Resizing and the size bounds\<close>

text \<open>
  Claim C2. Take a left-button press exactly on the bottom-right cell of the window with
  resize enabled, granted the capture, followed by any admissible steps of the gesture.
  Every further motion event then sets (width, height) to the press-time values plus the
  displacement of the pointer from the press, raised to title length + 2 and to 2 where
  the displacement would take them lower; left and top stay as they were.
\<close>

theorem resize_gesture_tracks_pointer:
  assumes idle: "\<not> captured_mouse s"
    and inside: "Contain (box_window s) px py"
    and handle: "px = x_max (box_window s)" "py = y_max (box_window s)" "resize s"
    and env: "\<not> child_OnEvent env" "CaptureMouse_probe env" "CaptureMouse_take env"
    and mid: "list_all (during_gesture (x_min (box s)) (y_min (box s))) acts"
    and mot: "\<not> child_OnEvent menv" "motion m \<noteq> Released"
  shows "width (run (Dispatch env (MouseEvent (press px py)) # acts
                      @ [Dispatch menv (MouseEvent m)]) s)
           = max (width s + (mouse_x m - px)) (int (length (title s)) + 2)
       \<and> height (run (Dispatch env (MouseEvent (press px py)) # acts
                      @ [Dispatch menv (MouseEvent m)]) s)
           = max (height s + (mouse_y m - py)) 2
       \<and> int (length (title s)) + 2
           \<le> width (run (Dispatch env (MouseEvent (press px py)) # acts
                      @ [Dispatch menv (MouseEvent m)]) s)
       \<and> 2 \<le> height (run (Dispatch env (MouseEvent (press px py)) # acts
                      @ [Dispatch menv (MouseEvent m)]) s)
       \<and> left (run (Dispatch env (MouseEvent (press px py)) # acts
                      @ [Dispatch menv (MouseEvent m)]) s) = left s
       \<and> top_y (run (Dispatch env (MouseEvent (press px py)) # acts
                      @ [Dispatch menv (MouseEvent m)]) s) = top_y s
       \<and> resize_bottom_right (run (Dispatch env (MouseEvent (press px py)) # acts
                      @ [Dispatch menv (MouseEvent m)]) s)"
proof -
  let ?s1 = "snd (OnEvent env (MouseEvent (press px py)) s)"
  let ?s2 = "run acts ?s1"
  let ?s3 = "snd (OnEvent menv (MouseEvent m) ?s2)"
  have s1: "captured_mouse ?s1" "\<not> drag ?s1" "resize_bottom_right ?s1" "box ?s1 = box s"
    "resize_start_x ?s1 = px - width s - x_min (box s)"
    "resize_start_y ?s1 = py - height s - y_min (box s)"
    "left ?s1 = left s" "top_y ?s1 = top_y s" "title ?s1 = title s"
    unfolding press_starts_gesture[OF idle inside env]
    using handle by (simp_all add: update_hover_frame)
  have mid1: "list_all (during_gesture (x_min (box ?s1)) (y_min (box ?s1))) acts"
    using mid s1(4) by simp
  have fr: "gesture_frame ?s1 ?s2" using mid1 s1(1) by (rule run_gesture_frame)
  have still: "left ?s2 = left ?s1 \<and> top_y ?s2 = top_y ?s1"
    using mid1 s1(1,2) by (rule run_still_position)
  have s2: "captured_mouse ?s2" "\<not> drag ?s2" "resize_bottom_right ?s2"
    "resize_start_x ?s2 = px - width s - x_min (box s)"
    "resize_start_y ?s2 = py - height s - y_min (box s)"
    "x_min (box ?s2) = x_min (box s)" "y_min (box ?s2) = y_min (box s)"
    "title ?s2 = title s" "left ?s2 = left s" "top_y ?s2 = top_y s"
    using fr still s1 by (simp_all add: gesture_frame_def)
  have s3: "width ?s3 = max (width s + (mouse_x m - px)) (int (length (title s)) + 2)"
    "height ?s3 = max (height s + (mouse_y m - py)) 2"
    "left ?s3 = left s" "top_y ?s3 = top_y s" "resize_bottom_right ?s3"
    using mot s2
    by (simp_all add: OnEvent_captured captured_branch_def Let_def update_hover_frame algebra_simps)
  have "run (Dispatch env (MouseEvent (press px py)) # acts @ [Dispatch menv (MouseEvent m)]) s
        = ?s3"
    by (simp add: run_append)
  then show ?thesis using s3 by simp
qed

text \<open>
  Claim C2 on the scenario of the specification: five cells to the right give width 15,
  and a pointer far to the upper left gives the minimums 4 and 2.
\<close>

theorem resize_gesture_tracks_pointer_witness:
  "\<not> captured_mouse hi_window \<and> Contain (box_window hi_window) 9 4
   \<and> 9 = x_max (box_window hi_window) \<and> 4 = y_max (box_window hi_window) \<and> resize hi_window
   \<and> list_all (during_gesture (x_min (box hi_window)) (y_min (box hi_window)))
        [Dispatch granted (MouseEvent (move 14 4))]
   \<and> width (run [Dispatch granted (MouseEvent (press 9 4)),
                  Dispatch granted (MouseEvent (move 14 4))] hi_window) = 15
   \<and> width (run (Dispatch granted (MouseEvent (press 9 4)) #
                  [Dispatch granted (MouseEvent (move 14 4))]
                  @ [Dispatch granted (MouseEvent (move (-20) (-20)))]) hi_window) = 4
   \<and> height (run (Dispatch granted (MouseEvent (press 9 4)) #
                  [Dispatch granted (MouseEvent (move 14 4))]
                  @ [Dispatch granted (MouseEvent (move (-20) (-20)))]) hi_window) = 2"
proof -
  have h1: "\<not> captured_mouse hi_window" by (simp add: hi_window_eq)
  have h2: "Contain (box_window hi_window) 9 4" by (simp add: hi_window_eq Contain_def)
  have h3: "9 = x_max (box_window hi_window)" "4 = y_max (box_window hi_window)" "resize hi_window"
    by (simp_all add: hi_window_eq)
  have h4: "\<not> child_OnEvent granted" "CaptureMouse_probe granted" "CaptureMouse_take granted"
    by (simp_all add: granted_def)
  have h5: "list_all (during_gesture (x_min (box hi_window)) (y_min (box hi_window)))
              [Dispatch granted (MouseEvent (move 14 4))]"
    by (simp add: granted_def move_def)
  have h0: "list_all (during_gesture (x_min (box hi_window)) (y_min (box hi_window))) []"
    by simp
  have h6: "motion (move (-20) (-20)) \<noteq> Released" "motion (move 14 4) \<noteq> Released"
    by (simp_all add: move_def)
  have w1: "width (run [Dispatch granted (MouseEvent (press 9 4)),
                  Dispatch granted (MouseEvent (move 14 4))] hi_window) = 15"
    using resize_gesture_tracks_pointer[OF h1 h2 h3 h4 h0 h4(1) h6(2)]
    by (simp add: hi_window_eq move_def)
  have w2: "width (run (Dispatch granted (MouseEvent (press 9 4)) #
                  [Dispatch granted (MouseEvent (move 14 4))]
                  @ [Dispatch granted (MouseEvent (move (-20) (-20)))]) hi_window) = 4"
    and w3: "height (run (Dispatch granted (MouseEvent (press 9 4)) #
                  [Dispatch granted (MouseEvent (move 14 4))]
                  @ [Dispatch granted (MouseEvent (move (-20) (-20)))]) hi_window) = 2"
    using resize_gesture_tracks_pointer[OF h1 h2 h3 h4 h5 h4(1) h6(1)]
    by (simp_all add: hi_window_eq move_def)
  show ?thesis by (intro conjI; fact)
qed

text \<open>
  Claim C5, as amended. Whenever a call of the handler changes one of left, top, width and
  height, the bounds width \<ge> title length + 2 and height \<ge> 2 hold afterwards; and a call
  of the handler keeps the two bounds when they hold before it. (They are not established
  at creation, nor for values the owner writes while no gesture is active.)
\<close>

theorem handler_mutation_clamped:
  assumes "OnEvent env e s = (h, s')"
  shows "(left s' \<noteq> left s \<or> top_y s' \<noteq> top_y s \<or> width s' \<noteq> width s \<or> height s' \<noteq> height s
            \<longrightarrow> int (length (title s')) + 2 \<le> width s' \<and> 2 \<le> height s')
       \<and> (int (length (title s)) + 2 \<le> width s \<and> 2 \<le> height s
            \<longrightarrow> int (length (title s')) + 2 \<le> width s' \<and> 2 \<le> height s')"
proof (cases e)
  case (OtherEvent k)
  then show ?thesis using assms by (auto simp add: OnEvent_def split: if_splits)
next
  case (MouseEvent m)
  show ?thesis
  proof (cases "child_OnEvent env")
    case True
    then show ?thesis using assms by (auto simp add: OnEvent_def)
  next
    case False
    show ?thesis
    proof (cases "captured_mouse s")
      case True
      then show ?thesis using assms False MouseEvent
        by (auto simp add: OnEvent_captured captured_branch_def Let_def update_hover_frame split: if_splits)
    next
      case f: False
      then show ?thesis using assms False MouseEvent
        by (auto simp add: OnEvent_idle idle_branch_def Let_def update_hover_frame split: if_splits)
    qed
  qed
qed

text \<open>
  Claim C5 as stated fails: a window created with width 1 and height 1 keeps them at
  creation and after a pointer event with no gesture, and so does a window whose owner
  writes these values.
\<close>

theorem unclamped_outside_gesture_counterexample:
  "width (WindowImpl_new tiny_options) = 1 \<and> height (WindowImpl_new tiny_options) = 1
   \<and> int (length (title (WindowImpl_new tiny_options))) + 2 = 4
   \<and> width (snd (OnEvent granted (MouseEvent (move 0 0)) (WindowImpl_new tiny_options))) = 1
   \<and> height (snd (OnEvent granted (MouseEvent (move 0 0)) (WindowImpl_new tiny_options))) = 1
   \<and> width (run [Configure tiny_options] hi_window) = 1
   \<and> height (run [Configure tiny_options] hi_window) = 1"
  by (simp add: hi_window_eq tiny_options_def handler_defs move_def granted_def)

text \<open>Claim C5 as amended: the first motion of a drag raises the width from 1 to 4.\<close>

theorem handler_mutation_clamped_witness:
  "width (snd (OnEvent granted (MouseEvent (move 5 5)) tiny_dragging)) \<noteq> width tiny_dragging
   \<and> int (length (title (snd (OnEvent granted (MouseEvent (move 5 5)) tiny_dragging)))) + 2
       \<le> width (snd (OnEvent granted (MouseEvent (move 5 5)) tiny_dragging))
   \<and> 2 \<le> height (snd (OnEvent granted (MouseEvent (move 5 5)) tiny_dragging))
   \<and> width (snd (OnEvent granted (MouseEvent (move 5 5)) tiny_dragging)) = 4"
proof -
  have e: "OnEvent granted (MouseEvent (move 5 5)) tiny_dragging
           = (fst (OnEvent granted (MouseEvent (move 5 5)) tiny_dragging),
              snd (OnEvent granted (MouseEvent (move 5 5)) tiny_dragging))"
    by simp
  have w: "width (snd (OnEvent granted (MouseEvent (move 5 5)) tiny_dragging)) = 4"
    "width tiny_dragging = 1"
    by (simp_all add: tiny_dragging_eq handler_defs move_def granted_def)
  from handler_mutation_clamped[OF e] w show ?thesis by simp
qed

section \<open>Capture and the gesture flags\<close>

text \<open>
  Claim C3, as amended. A button release that reaches the window logic while the token is
  held is reported handled and releases the token; the hover flags are recomputed and every
  other member, the dragging and the resizing flag included, keeps its value.
\<close>

theorem release_drops_capture_only:
  assumes "captured_mouse s" and "\<not> child_OnEvent env" and "motion m = Released"
  shows "OnEvent env (MouseEvent m) s = (True, (update_hover m s)\<lparr> captured_mouse := False \<rparr>)
       \<and> \<not> captured_mouse (snd (OnEvent env (MouseEvent m) s))
       \<and> drag (snd (OnEvent env (MouseEvent m) s)) = drag s
       \<and> resize_bottom_right (snd (OnEvent env (MouseEvent m) s)) = resize_bottom_right s"
proof -
  have "OnEvent env (MouseEvent m) s = captured_branch m (update_hover m s)"
    using assms(2,1) by (rule OnEvent_captured)
  also have "\<dots> = (True, (update_hover m s)\<lparr> captured_mouse := False \<rparr>)"
    using assms(3) by (simp add: captured_branch_def)
  finally have result:
    "OnEvent env (MouseEvent m) s = (True, (update_hover m s)\<lparr> captured_mouse := False \<rparr>)" .
  show ?thesis unfolding result by (simp add: update_hover_frame)
qed

text \<open>
  Claim C3 as stated fails: the release that ends a drag leaves the dragging flag true.
\<close>

theorem release_keeps_flags_counterexample:
  "captured_mouse hi_dragging \<and> motion (release 6 4) = Released
   \<and> fst (OnEvent granted (MouseEvent (release 6 4)) hi_dragging)
   \<and> \<not> captured_mouse (snd (OnEvent granted (MouseEvent (release 6 4)) hi_dragging))
   \<and> drag (snd (OnEvent granted (MouseEvent (release 6 4)) hi_dragging))"
  by (simp add: hi_dragging_eq handler_defs release_def granted_def)

text \<open>Claim C3 as amended, at the same release.\<close>

theorem release_drops_capture_only_witness:
  "captured_mouse hi_dragging \<and> \<not> child_OnEvent granted \<and> motion (release 6 4) = Released
   \<and> OnEvent granted (MouseEvent (release 6 4)) hi_dragging = (True, hi_released)
   \<and> \<not> captured_mouse hi_released \<and> drag hi_released \<and> \<not> resize_bottom_right hi_released"
proof -
  have h: "captured_mouse hi_dragging" "\<not> child_OnEvent granted" "motion (release 6 4) = Released"
    by (simp_all add: hi_dragging_eq granted_def release_def)
  from release_drops_capture_only[OF h] h show ?thesis
    by (simp add: hi_released_def update_hover_frame hi_dragging_eq)
qed

text \<open>
  Claim C4, as amended. In every state reached from a newly created window by any list of
  events, frames and writes of the options: if the token is held then exactly one of the
  dragging flag and the resizing flag is true.
\<close>

theorem captured_exactly_one_flag:
  "captured_mouse (run acts (WindowImpl_new option)) \<longrightarrow>
     (drag (run acts (WindowImpl_new option)) \<and> \<not> resize_bottom_right (run acts (WindowImpl_new option)))
   \<or> (\<not> drag (run acts (WindowImpl_new option)) \<and> resize_bottom_right (run acts (WindowImpl_new option)))"
  using run_capture_flags[of "WindowImpl_new option" acts]
  by (auto simp add: WindowImpl_new_def)

text \<open>
  Claim C4 as stated fails: after a drag has ended, and after a later pointer event too,
  no token is held and the dragging flag is still true.
\<close>

theorem stale_drag_flag_counterexample:
  "\<not> captured_mouse (run [hi_frame, Dispatch granted (MouseEvent (press 3 1)),
                           Dispatch granted (MouseEvent (release 3 1)),
                           Dispatch granted (MouseEvent (move 30 20))] (WindowImpl_new hi_options))
   \<and> drag (run [hi_frame, Dispatch granted (MouseEvent (press 3 1)),
                 Dispatch granted (MouseEvent (release 3 1)),
                 Dispatch granted (MouseEvent (move 30 20))] (WindowImpl_new hi_options))"
  by (simp add: hi_frame_def hi_options_def handler_defs press_def release_def move_def granted_def)

text \<open>Claim C4 as amended, in the state after a press on the body.\<close>

theorem captured_exactly_one_flag_witness:
  "captured_mouse (run [hi_frame, Dispatch granted (MouseEvent (press 3 1))] (WindowImpl_new hi_options))
   \<and> drag (run [hi_frame, Dispatch granted (MouseEvent (press 3 1))] (WindowImpl_new hi_options))
   \<and> \<not> resize_bottom_right
         (run [hi_frame, Dispatch granted (MouseEvent (press 3 1))] (WindowImpl_new hi_options))"
proof -
  have c: "captured_mouse (run [hi_frame, Dispatch granted (MouseEvent (press 3 1))] (WindowImpl_new hi_options))"
    and d: "drag (run [hi_frame, Dispatch granted (MouseEvent (press 3 1))] (WindowImpl_new hi_options))"
    by (simp_all add: hi_frame_def hi_options_def handler_defs press_def granted_def)
  from captured_exactly_one_flag[of "[hi_frame, Dispatch granted (MouseEvent (press 3 1))]" hi_options] c d
  show ?thesis by blast
qed

text \<open>
  Claim C6, as amended. A left-button press inside the window, with no token held, for
  which one of the two capture requests returns a null token, is reported handled and
  starts no gesture: the token stays null, the resizing flag is false afterwards, and the
  dragging flag and the geometry keep the values they had (the dragging flag is not
  cleared, so it is still true when an earlier drag left it set).
\<close>

theorem failed_capture_starts_no_gesture:
  assumes "\<not> captured_mouse s" and "\<not> child_OnEvent env"
    and "Contain (box_window s) (mouse_x m) (mouse_y m)"
    and "button m = Left" and "motion m = Pressed"
    and "\<not> CaptureMouse_probe env \<or> \<not> CaptureMouse_take env"
  shows "fst (OnEvent env (MouseEvent m) s) = True
       \<and> \<not> captured_mouse (snd (OnEvent env (MouseEvent m) s))
       \<and> \<not> resize_bottom_right (snd (OnEvent env (MouseEvent m) s))
       \<and> drag (snd (OnEvent env (MouseEvent m) s)) = drag s
       \<and> left (snd (OnEvent env (MouseEvent m) s)) = left s
       \<and> top_y (snd (OnEvent env (MouseEvent m) s)) = top_y s
       \<and> width (snd (OnEvent env (MouseEvent m) s)) = width s
       \<and> height (snd (OnEvent env (MouseEvent m) s)) = height s"
  using assms
  by (auto simp add: OnEvent_idle idle_branch_def Let_def update_hover_frame update_hover_flags)

text \<open>
  Claim C6 as stated fails: after a drag has ended, a press whose capture request is
  refused is handled and starts no gesture, yet the dragging flag is true afterwards.
\<close>

theorem failed_capture_stale_drag_counterexample:
  "\<not> captured_mouse hi_released \<and> Contain (box_window hi_released) 3 1
   \<and> CaptureMouse_probe refused = False
   \<and> fst (OnEvent refused (MouseEvent (press 3 1)) hi_released)
   \<and> \<not> captured_mouse (snd (OnEvent refused (MouseEvent (press 3 1)) hi_released))
   \<and> drag (snd (OnEvent refused (MouseEvent (press 3 1)) hi_released))"
  by (simp add: hi_released_eq handler_defs press_def refused_def)

text \<open>Claim C6 as amended, on the window before any gesture.\<close>

theorem failed_capture_starts_no_gesture_witness:
  "\<not> captured_mouse hi_window \<and> child_OnEvent refused = False
   \<and> Contain (box_window hi_window) 3 1
   \<and> button (press 3 1) = Left \<and> motion (press 3 1) = Pressed
   \<and> CaptureMouse_probe refused = False
   \<and> fst (OnEvent refused (MouseEvent (press 3 1)) hi_window) = True
   \<and> \<not> captured_mouse (snd (OnEvent refused (MouseEvent (press 3 1)) hi_window))
   \<and> \<not> resize_bottom_right (snd (OnEvent refused (MouseEvent (press 3 1)) hi_window))
   \<and> \<not> drag (snd (OnEvent refused (MouseEvent (press 3 1)) hi_window))"
proof -
  have h: "\<not> captured_mouse hi_window" "\<not> child_OnEvent refused"
    "Contain (box_window hi_window) (mouse_x (press 3 1)) (mouse_y (press 3 1))"
    "button (press 3 1) = Left" "motion (press 3 1) = Pressed"
    "\<not> CaptureMouse_probe refused \<or> \<not> CaptureMouse_take refused"
    by (simp_all add: hi_window_eq Contain_def press_def refused_def)
  have d: "\<not> drag hi_window" "Contain (box_window hi_window) 3 1"
    "CaptureMouse_probe refused = False"
    by (simp_all add: hi_window_eq Contain_def refused_def)
  from failed_capture_starts_no_gesture[OF h] h d show ?thesis
    by simp
qed

text \<open>
  Claim C7, as amended. While the token is held every pointer event, at any coordinates,
  is reported handled, and leaves title, resize and render option, both boxes, both
  gesture flags, the four snapshotted offsets and the focus untouched; left and top change
  only when dragging; when not resizing, width and height are either unchanged or raised
  to their minimums. The hover flag is not preserved: it is recomputed from the pointer position
  whenever the event reaches the window logic.
\<close>

theorem captured_pointer_event_frame:
  assumes "captured_mouse s"
  shows "fst (OnEvent env (MouseEvent m) s) = True
       \<and> title (snd (OnEvent env (MouseEvent m) s)) = title s
       \<and> resize (snd (OnEvent env (MouseEvent m) s)) = resize s
       \<and> render (snd (OnEvent env (MouseEvent m) s)) = render s
       \<and> box (snd (OnEvent env (MouseEvent m) s)) = box s
       \<and> box_window (snd (OnEvent env (MouseEvent m) s)) = box_window s
       \<and> drag (snd (OnEvent env (MouseEvent m) s)) = drag s
       \<and> resize_bottom_right (snd (OnEvent env (MouseEvent m) s)) = resize_bottom_right s
       \<and> drag_start_x (snd (OnEvent env (MouseEvent m) s)) = drag_start_x s
       \<and> drag_start_y (snd (OnEvent env (MouseEvent m) s)) = drag_start_y s
       \<and> resize_start_x (snd (OnEvent env (MouseEvent m) s)) = resize_start_x s
       \<and> resize_start_y (snd (OnEvent env (MouseEvent m) s)) = resize_start_y s
       \<and> TakeFocus_calls (snd (OnEvent env (MouseEvent m) s)) = TakeFocus_calls s
       \<and> (\<not> drag s \<longrightarrow> left (snd (OnEvent env (MouseEvent m) s)) = left s
                      \<and> top_y (snd (OnEvent env (MouseEvent m) s)) = top_y s)
       \<and> (\<not> resize_bottom_right s \<longrightarrow>
            width (snd (OnEvent env (MouseEvent m) s)) \<in> {width s, max (width s) (int (length (title s)) + 2)}
          \<and> height (snd (OnEvent env (MouseEvent m) s)) \<in> {height s, max (height s) 2})
       \<and> (\<not> child_OnEvent env \<longrightarrow>
            mouse_hover (snd (OnEvent env (MouseEvent m) s))
              = Contain (box_window s) (mouse_x m) (mouse_y m))"
proof (cases "child_OnEvent env")
  case True
  then show ?thesis by (simp add: OnEvent_def)
next
  case False
  then show ?thesis using assms
    by (simp add: OnEvent_captured captured_branch_def Let_def update_hover_frame update_hover_flags)
qed

text \<open>
  Claim C7 as stated fails: a motion outside the window during a drag clears the hover
  flag, and a motion during a pure drag of the small window changes its width.
\<close>

theorem captured_event_changes_hover_counterexample:
  "captured_mouse hi_dragging \<and> mouse_hover hi_dragging
   \<and> fst (OnEvent granted (MouseEvent (move 50 20)) hi_dragging)
   \<and> \<not> mouse_hover (snd (OnEvent granted (MouseEvent (move 50 20)) hi_dragging))
   \<and> captured_mouse tiny_dragging \<and> drag tiny_dragging \<and> \<not> resize_bottom_right tiny_dragging
   \<and> width tiny_dragging = 1
   \<and> width (snd (OnEvent granted (MouseEvent (move 0 0)) tiny_dragging)) = 4"
  by (simp add: hi_dragging_eq tiny_dragging_eq handler_defs move_def granted_def)

text \<open>Claim C7 as amended, at a motion outside the window during a drag.\<close>

theorem captured_pointer_event_frame_witness:
  "captured_mouse hi_dragging
   \<and> fst (OnEvent granted (MouseEvent (move 50 20)) hi_dragging) = True
   \<and> title (snd (OnEvent granted (MouseEvent (move 50 20)) hi_dragging)) = ''Hi''
   \<and> drag (snd (OnEvent granted (MouseEvent (move 50 20)) hi_dragging))
   \<and> width (snd (OnEvent granted (MouseEvent (move 50 20)) hi_dragging)) = 10
   \<and> mouse_hover (snd (OnEvent granted (MouseEvent (move 50 20)) hi_dragging)) = False"
proof -
  have h: "captured_mouse hi_dragging" by (simp add: hi_dragging_eq)
  have g: "\<not> child_OnEvent granted" by (simp add: granted_def)
  from captured_pointer_event_frame[OF h, of granted "move 50 20"] h g show ?thesis
    by (simp add: hi_dragging_eq move_def Contain_def)
qed

text \<open>
  A press on the handle cell while the resize option is disabled starts a drag, never a
  resize.
\<close>

theorem handle_press_without_resize_drags:
  assumes "\<not> captured_mouse s" and "Contain (box_window s) px py"
    and "px = x_max (box_window s)" and "py = y_max (box_window s)" and "\<not> resize s"
    and "\<not> child_OnEvent env" and "CaptureMouse_probe env" and "CaptureMouse_take env"
  shows "captured_mouse (snd (OnEvent env (MouseEvent (press px py)) s))
       \<and> drag (snd (OnEvent env (MouseEvent (press px py)) s))
       \<and> \<not> resize_bottom_right (snd (OnEvent env (MouseEvent (press px py)) s))"
  unfolding press_starts_gesture[OF assms(1,2,6,7,8)]
  using assms(5) by simp

text \<open>The small window has the resize option disabled and its only cell is the handle cell.\<close>

theorem handle_press_without_resize_drags_witness:
  "Contain (box_window (WindowImpl_new tiny_options)) 0 0
   \<and> x_max (box_window (WindowImpl_new tiny_options)) = 0
   \<and> y_max (box_window (WindowImpl_new tiny_options)) = 0
   \<and> resize (WindowImpl_new tiny_options) = False
   \<and> captured_mouse tiny_dragging \<and> drag tiny_dragging \<and> \<not> resize_bottom_right tiny_dragging"
proof -
  have h: "\<not> captured_mouse (WindowImpl_new tiny_options)"
    "Contain (box_window (WindowImpl_new tiny_options)) 0 0"
    "0 = x_max (box_window (WindowImpl_new tiny_options))"
    "0 = y_max (box_window (WindowImpl_new tiny_options))"
    "\<not> resize (WindowImpl_new tiny_options)"
    by (simp_all add: WindowImpl_new_def tiny_options_def Contain_def)
  have g: "\<not> child_OnEvent granted" "CaptureMouse_probe granted" "CaptureMouse_take granted"
    by (simp_all add: granted_def)
  have "captured_mouse tiny_dragging \<and> drag tiny_dragging \<and> \<not> resize_bottom_right tiny_dragging"
    using handle_press_without_resize_drags[OF h g] by (simp add: tiny_dragging_def)
  moreover have "x_max (box_window (WindowImpl_new tiny_options)) = 0"
    "y_max (box_window (WindowImpl_new tiny_options)) = 0"
    "resize (WindowImpl_new tiny_options) = False"
    by (simp_all add: WindowImpl_new_def tiny_options_def)
  ultimately show ?thesis using h(2) by simp
qed

section \<open>Rendering\<close>

text \<open>
  Claim C8, as amended. When no render override is configured, the element that
  \<^verbatim>\<open>Render\<close> returns holds the drop-shadow decorator. When the box \<open>b\<close> of that
  decorator is not empty (width > 0 and height > 0), its render pass paints, after the
  wrapped element, the cells of column x_max + 1 in the rows y_min + 1 to y_max + 1 (the
  right sweep) and the cells of row y_max + 1 in the columns x_min + 1 to x_max (the bottom
  sweep); the corner cell (x_max + 1, y_max + 1) is handed to \<^verbatim>\<open>PixelAt\<close> once by the
  right sweep and never by the bottom sweep, and ends dark gray on black, not merged.
\<close>

theorem drop_shadow_sweeps:
  assumes "render s = None" and "x_min b \<le> x_max b" and "y_min b \<le> y_max b"
  shows "shadowed (Render child active s)
       \<and> DropShadowDecorator_Render child_render b screen
           = fold paint_shadow (right_cells b (y_min b) @ bottom_cells b (x_min b))
               (child_render screen)
       \<and> set (right_cells b (y_min b))
           = {(c, r). c = x_max b + 1 \<and> y_min b + 1 \<le> r \<and> r \<le> y_max b + 1}
       \<and> set (bottom_cells b (x_min b))
           = {(c, r). r = y_max b + 1 \<and> x_min b + 1 \<le> c \<and> c < x_max b + 1}
       \<and> count_list (right_cells b (y_min b)) (x_max b + 1, y_max b + 1) = 1
       \<and> count_list (bottom_cells b (x_min b)) (x_max b + 1, y_max b + 1) = 0
       \<and> DropShadowDecorator_Render child_render b screen (x_max b + 1, y_max b + 1)
           = (child_render screen (x_max b + 1, y_max b + 1))
               \<lparr> foreground_color := GrayDark, background_color := Black, automerge := False \<rparr>"
proof -
  let ?corner = "(x_max b + 1, y_max b + 1)"
  have tree: "shadowed (Render child active s)"
    using assms(1) by (rule Render_default_shadowed)
  have paint: "DropShadowDecorator_Render child_render b screen
           = fold paint_shadow (right_cells b (y_min b) @ bottom_cells b (x_min b))
               (child_render screen)"
    by (simp add: DropShadowDecorator_Render_def right_shadow_fold bottom_shadow_fold)
  have bottom: "set (bottom_cells b (x_min b))
           = {(c, r). r = y_max b + 1 \<and> x_min b + 1 \<le> c \<and> c < x_max b + 1}"
    by (auto simp add: set_bottom_cells)
  have in_right: "?corner \<in> set (right_cells b (y_min b))"
    using assms(3) by (simp add: set_right_cells)
  have not_bottom: "?corner \<notin> set (bottom_cells b (x_min b))"
    by (simp add: set_bottom_cells)
  have once: "count_list (right_cells b (y_min b)) ?corner = 1"
    using in_right by (simp add: count_list_distinct distinct_right_cells)
  have never: "count_list (bottom_cells b (x_min b)) ?corner = 0"
    using not_bottom by (simp add: count_list_distinct distinct_bottom_cells)
  have pixel: "DropShadowDecorator_Render child_render b screen ?corner
           = (child_render screen ?corner)
               \<lparr> foreground_color := GrayDark, background_color := Black, automerge := False \<rparr>"
    unfolding paint using in_right by (simp add: fold_paint_shadow)
  from tree paint set_right_cells[of b "y_min b"] bottom once never pixel
  show ?thesis by (intro conjI)
qed

text \<open>
  Claim C8 as stated fails: with a render override that returns the inner element, a
  window of width 10 and height 5 is rendered without any drop-shadow decorator.
\<close>

theorem override_has_no_shadow_counterexample:
  "0 < width (WindowImpl_new plain_options) \<and> 0 < height (WindowImpl_new plain_options)
   \<and> \<not> shadowed (Render (Content 0) True (WindowImpl_new plain_options))"
  by (simp add: plain_options_def WindowImpl_new_def Render_def PositionAndSize_def Let_def)

text \<open>Claim C8 as amended, for the window of the scenario in the box (0,0) to (9,4).\<close>

theorem drop_shadow_sweeps_witness:
  "render hi_window = None \<and> x_min hi_box \<le> x_max hi_box \<and> y_min hi_box \<le> y_max hi_box
   \<and> shadowed (Render (Content 0) True hi_window)
   \<and> set (right_cells hi_box (y_min hi_box)) = {(10, 1), (10, 2), (10, 3), (10, 4), (10, 5)}
   \<and> right_cells hi_box (y_min hi_box) = [(10, 1), (10, 2), (10, 3), (10, 4), (10, 5)]
   \<and> bottom_cells hi_box (x_min hi_box)
       = [(1, 5), (2, 5), (3, 5), (4, 5), (5, 5), (6, 5), (7, 5), (8, 5), (9, 5)]
   \<and> count_list (right_cells hi_box (y_min hi_box)) (10, 5) = 1
   \<and> count_list (bottom_cells hi_box (x_min hi_box)) (10, 5) = 0"
proof -
  have h: "render hi_window = None" "x_min hi_box \<le> x_max hi_box" "y_min hi_box \<le> y_max hi_box"
    by (simp_all add: hi_window_eq hi_box_def)
  have r: "right_cells hi_box (y_min hi_box) = [(10, 1), (10, 2), (10, 3), (10, 4), (10, 5)]"
    by (simp add: right_cells.simps hi_box_def)
  have b: "bottom_cells hi_box (x_min hi_box)
       = [(1, 5), (2, 5), (3, 5), (4, 5), (5, 5), (6, 5), (7, 5), (8, 5), (9, 5)]"
    by (simp add: bottom_cells.simps hi_box_def)
  have c: "x_max hi_box + 1 = 10" "y_max hi_box + 1 = 5" by (simp_all add: hi_box_def)
  note t = drop_shadow_sweeps[OF h, of "Content 0" True]
  have s: "shadowed (Render (Content 0) True hi_window)" using t by simp
  have n1: "count_list (right_cells hi_box (y_min hi_box)) (10, 5) = 1"
    and n0: "count_list (bottom_cells hi_box (x_min hi_box)) (10, 5) = 0"
    using t c by simp_all
  have rs: "set (right_cells hi_box (y_min hi_box)) = {(10, 1), (10, 2), (10, 3), (10, 4), (10, 5)}"
    by (simp add: r)
  show ?thesis by (intro conjI; fact)
qed

text \<open>
  Claim C9, as amended. The Positioner draws its content in the rectangle that starts
  \<open>left\<close> columns and \<open>top\<close> rows from the origin of its own rectangle and has the size
  (width, height). Applied twice with the same arguments it is idempotent when left = 0
  and top = 0: the visual is the one of a single application.
\<close>

theorem PositionAndSize_idempotent_at_origin:
  "SetBox need (PositionAndSize l t w h e) b
     = SetBox need e \<lparr> x_min = x_min b + l, x_max = x_min b + l + w - 1,
                      y_min = y_min b + t, y_max = y_min b + t + h - 1 \<rparr>
   \<and> SetBox need (PositionAndSize 0 0 w h (PositionAndSize 0 0 w h e)) b
     = SetBox need (PositionAndSize 0 0 w h e) b"
proof -
  let ?inner = "\<lparr> x_min = x_min b, x_max = x_min b + w - 1,
                  y_min = y_min b, y_max = y_min b + h - 1 \<rparr>"
  have once: "SetBox need (PositionAndSize 0 0 w h e') b = SetBox need e' ?inner" for e'
    by (simp add: SetBox_PositionAndSize)
  have "SetBox need (PositionAndSize 0 0 w h (PositionAndSize 0 0 w h e)) b
        = SetBox need (PositionAndSize 0 0 w h e) ?inner"
    by (rule once)
  also have "\<dots> = SetBox need e ?inner"
    by (simp add: SetBox_PositionAndSize)
  also have "\<dots> = SetBox need (PositionAndSize 0 0 w h e) b"
    by (simp add: once)
  finally have twice: "SetBox need (PositionAndSize 0 0 w h (PositionAndSize 0 0 w h e)) b
        = SetBox need (PositionAndSize 0 0 w h e) b" .
  from SetBox_PositionAndSize[of need l t w h e b] twice show ?thesis by (rule conjI)
qed

text \<open>
  Claim C9 as stated fails: with left = 1 and top = 1 the first application draws the
  content on the cells (1,1) to (10,5), the second application moves it to (2,2) to (11,6).
\<close>

theorem PositionAndSize_twice_counterexample:
  "SetBox need_10_5 (PositionAndSize 1 1 10 5 (Content 0)) terminal
     = [(Content 0, \<lparr> x_min = 1, x_max = 10, y_min = 1, y_max = 5 \<rparr>)]
   \<and> SetBox need_10_5 (PositionAndSize 1 1 10 5 (PositionAndSize 1 1 10 5 (Content 0))) terminal
     = [(Content 0, \<lparr> x_min = 2, x_max = 11, y_min = 2, y_max = 6 \<rparr>)]
   \<and> SetBox need_10_5 (PositionAndSize 1 1 10 5 (PositionAndSize 1 1 10 5 (Content 0))) terminal
     \<noteq> SetBox need_10_5 (PositionAndSize 1 1 10 5 (Content 0)) terminal"
  by (simp add: PositionAndSize_def Let_def terminal_def need_10_5_def)

text \<open>Claim C9 as amended, for a window of 10 by 5 cells at the origin of the screen.\<close>

theorem PositionAndSize_idempotent_at_origin_witness:
  "SetBox need_10_5 (PositionAndSize 0 0 10 5 (PositionAndSize 0 0 10 5 (Content 0))) terminal
     = [(Content 0, \<lparr> x_min = 0, x_max = 9, y_min = 0, y_max = 4 \<rparr>)]
   \<and> SetBox need_10_5 (PositionAndSize 0 0 10 5 (Content 0)) terminal
     = [(Content 0, \<lparr> x_min = 0, x_max = 9, y_min = 0, y_max = 4 \<rparr>)]"
proof -
  have once: "SetBox need_10_5 (PositionAndSize 0 0 10 5 (Content 0)) terminal
     = [(Content 0, \<lparr> x_min = 0, x_max = 9, y_min = 0, y_max = 4 \<rparr>)]"
    by (simp add: PositionAndSize_def Let_def terminal_def need_10_5_def)
  from PositionAndSize_idempotent_at_origin[of need_10_5 0 0 10 5 "Content 0" terminal] once
  show ?thesis by simp
qed

end
